theory Spec2Isabelle
  imports Main "HOL-Library.Word"
begin

section \<open>Intrusive reference counting: \<^verbatim>\<open>tfrt/support/ref_count.h\<close>\<close>

text \<open>
  The header defines three things: the global counter
  \<^verbatim>\<open>total_reference_counted_objects\<close>, the mixin class
  \<^verbatim>\<open>ReferenceCounted<SubClass>\<close> with its atomic \<^verbatim>\<open>ref_count_\<close>, and the
  move-only smart pointer \<^verbatim>\<open>RCReference<T>\<close> with its single field
  \<^verbatim>\<open>pointer_\<close>.

  Both classes are objects with an identity, and two names may denote the same object
  (\<^verbatim>\<open>x = std::move(x)\<close>), so the embedding keeps them in two stores: one from object
  identities to the value of \<^verbatim>\<open>ref_count_\<close>, one from the locations of
  \<^verbatim>\<open>RCReference\<close> objects to the value of \<^verbatim>\<open>pointer_\<close>. An entry is present
  exactly during the lifetime of the object.
\<close>

subsection \<open>Data\<close>

type_synonym addr = nat
type_synonym href = nat

text \<open>A raw pointer \<^verbatim>\<open>T*\<close>.\<close>

datatype pointer = nullptr | Ptr addr

text \<open>
  The two ways in which a call does not return normally. \<open>AssertionFailed\<close> is the
  abort of a failing \<^verbatim>\<open>assert\<close> from \<^verbatim>\<open><cassert>\<close>, which exists only when the
  translation unit is compiled without \<^verbatim>\<open>NDEBUG\<close>. \<open>UndefinedBehaviour\<close> stands for
  an access that C++ gives no meaning: a member call through a null pointer or through
  a pointer to an object whose lifetime has ended.
\<close>

datatype fault = AssertionFailed | UndefinedBehaviour

text \<open>
  \<^item> \<open>NDEBUG\<close>: the build configuration; no operation changes it.
  \<^item> \<open>objects\<close>: \<^verbatim>\<open>std::atomic<unsigned> ref_count_\<close> of every live object, with
    \<^verbatim>\<open>unsigned\<close> 32 bits wide.
  \<^item> \<open>handles\<close>: \<^verbatim>\<open>T* pointer_\<close> of every live \<^verbatim>\<open>RCReference\<close>.
  \<^item> \<open>total_reference_counted_objects\<close>: the global \<^verbatim>\<open>std::atomic<size_t>\<close>, with
    \<^verbatim>\<open>size_t\<close> 64 bits wide.
  \<^item> \<open>destroy_calls\<close>: a history variable that is not in the source. It lists, in
    order, the objects on which \<^verbatim>\<open>Destroy()\<close> has been entered.
  \<^item> \<open>next_object\<close>: the identity that the next constructed object receives.
    Identities are never reused, so that an identity names one object for ever.
\<close>

record world =
  NDEBUG :: bool
  objects :: "addr \<rightharpoonup> 32 word"
  handles :: "href \<rightharpoonup> pointer"
  total_reference_counted_objects :: "64 word"
  destroy_calls :: "addr list"
  next_object :: addr

text \<open>The state at process start: \<^verbatim>\<open>total_reference_counted_objects{0}\<close>.\<close>

definition init :: "bool \<Rightarrow> world" where
  "init nd = \<lparr>NDEBUG = nd, objects = Map.empty, handles = Map.empty,
     total_reference_counted_objects = 0, destroy_calls = [], next_object = 0\<rparr>"

subsection \<open>The global counter\<close>

text \<open>
  \<^verbatim>\<open>
  inline size_t GetNumReferenceCountedObjects() {
    return total_reference_counted_objects.load(std::memory_order_relaxed);
  }
  \<close>
\<close>

definition GetNumReferenceCountedObjects :: "world \<Rightarrow> 64 word \<times> world" where
  "GetNumReferenceCountedObjects st = (total_reference_counted_objects st, st)"

subsection \<open>\<^verbatim>\<open>ReferenceCounted<SubClass>\<close>\<close>

text \<open>
  \<^verbatim>\<open>
  ReferenceCounted() : ref_count_(1) {
    total_reference_counted_objects.fetch_add(1, std::memory_order_relaxed);
  }
  \<close>
  The constructor runs on fresh storage; the result carries the identity of the new
  object.
\<close>

definition ReferenceCounted_ctor :: "world \<Rightarrow> addr \<times> world" where
  "ReferenceCounted_ctor st =
     (let a = next_object st in
      (a, st\<lparr>objects := (objects st)(a \<mapsto> 1),
             total_reference_counted_objects := total_reference_counted_objects st + 1,
             next_object := Suc a\<rparr>))"

text \<open>
  \<^verbatim>\<open>
  ~ReferenceCounted() {
    assert(ref_count_.load() == 0 &&
           "Shouldn't destroy a reference counted object with references!");
    total_reference_counted_objects.fetch_sub(1, std::memory_order_relaxed);
  }
  \<close>
  The lifetime of the object ends with its destructor.
\<close>

definition ReferenceCounted_dtor :: "addr \<Rightarrow> world \<Rightarrow> fault + world" where
  "ReferenceCounted_dtor a st =
     (case objects st a of
        None \<Rightarrow> Inl UndefinedBehaviour
      | Some c \<Rightarrow>
          if \<not> NDEBUG st \<and> c \<noteq> 0 then Inl AssertionFailed
          else Inr (st\<lparr>objects := (objects st)(a := None),
                       total_reference_counted_objects :=
                         total_reference_counted_objects st - 1\<rparr>))"

text \<open>\<^verbatim>\<open>void AddRef() { ref_count_.fetch_add(1); }\<close>\<close>

definition AddRef :: "addr \<Rightarrow> world \<Rightarrow> fault + world" where
  "AddRef a st =
     (case objects st a of
        None \<Rightarrow> Inl UndefinedBehaviour
      | Some c \<Rightarrow> Inr (st\<lparr>objects := (objects st)(a \<mapsto> c + 1)\<rparr>))"

text \<open>
  \<^verbatim>\<open>ref_count_.fetch_sub(1)\<close> on the \<^verbatim>\<open>std::atomic<unsigned>\<close>: one atomic
  read-modify-write. It stores the decremented value and returns the value it
  replaced.
\<close>

definition fetch_sub :: "addr \<Rightarrow> world \<Rightarrow> fault + 32 word \<times> world" where
  "fetch_sub a st =
     (case objects st a of
        None \<Rightarrow> Inl UndefinedBehaviour
      | Some c \<Rightarrow> Inr (c, st\<lparr>objects := (objects st)(a \<mapsto> c - 1)\<rparr>))"

text \<open>
  \<^verbatim>\<open>
  void DropRef() {
    if (ref_count_.fetch_sub(1) == 1) static_cast<SubClass*>(this)->Destroy();
  }
  \<close>
  \<^verbatim>\<open>SubClass\<close> is the template parameter of \<^verbatim>\<open>ReferenceCounted\<close>, so the call
  \<^verbatim>\<open>static_cast<SubClass*>(this)->Destroy()\<close> runs code of the client: a
  \<^verbatim>\<open>Destroy()\<close> that the SubClass defines itself, or the inherited one, whose
  \<^verbatim>\<open>delete\<close> runs the destructor of the SubClass with those of its members. That
  code is not in the header; it is the parameter \<open>D\<close>, a function of the object and
  the state.
\<close>

type_synonym hook = "addr \<Rightarrow> world \<Rightarrow> fault + world"

definition DropRef_with :: "hook \<Rightarrow> addr \<Rightarrow> world \<Rightarrow> fault + world" where
  "DropRef_with D a st =
     (case fetch_sub a st of
        Inl e \<Rightarrow> Inl e
      | Inr (old, st1) \<Rightarrow> if old = 1 then D a st1 else Inr st1)"

text \<open>
  \<^verbatim>\<open>void Destroy() { delete static_cast<SubClass*>(this); }\<close>
  The inherited hook, for a SubClass whose own destructor has nothing to destroy: the
  \<^verbatim>\<open>delete\<close> expression runs \<^verbatim>\<open>~ReferenceCounted\<close> and frees the storage. The
  first thing recorded is the entry into the hook.
\<close>

definition Destroy :: hook where
  "Destroy a st =
     ReferenceCounted_dtor a (st\<lparr>destroy_calls := destroy_calls st @ [a]\<rparr>)"

text \<open>\<^verbatim>\<open>DropRef\<close> of such a SubClass.\<close>

definition DropRef :: "addr \<Rightarrow> world \<Rightarrow> fault + world" where
  "DropRef a st = DropRef_with Destroy a st"

text \<open>\<^verbatim>\<open>bool IsUnique() const { return ref_count_.load() == 1; }\<close>\<close>

definition IsUnique :: "addr \<Rightarrow> world \<Rightarrow> fault + bool \<times> world" where
  "IsUnique a st =
     (case objects st a of
        None \<Rightarrow> Inl UndefinedBehaviour
      | Some c \<Rightarrow> Inr (c = 1, st))"

subsection \<open>\<^verbatim>\<open>RCReference<T>\<close>\<close>

text \<open>
  Every member function takes the location \<open>this\<close> of the handle it is called on. A
  constructor, and a function that returns an \<^verbatim>\<open>RCReference\<close> by value, takes the
  location in which the new handle is built.

  The three member functions that call \<^verbatim>\<open>DropRef\<close> come in two forms: with the
  hook \<open>D\<close> of the referent's class as a parameter (suffix \<open>_with\<close>), and for the
  hook \<open>Destroy\<close>. A hook may end the lifetime of handles, those that are members of
  the object it destroys; a member function that reads or writes \<^verbatim>\<open>pointer_\<close> of a
  handle after the drop does so in the state that the drop has left.

  \<^verbatim>\<open>if (pointer_) pointer_->DropRef();\<close> occurs three times in the class.
\<close>

definition drop_if_set_with :: "hook \<Rightarrow> pointer \<Rightarrow> world \<Rightarrow> fault + world" where
  "drop_if_set_with D p st =
     (case p of nullptr \<Rightarrow> Inr st | Ptr a \<Rightarrow> DropRef_with D a st)"

definition drop_if_set :: "pointer \<Rightarrow> world \<Rightarrow> fault + world" where
  "drop_if_set p st = drop_if_set_with Destroy p st"

text \<open>\<^verbatim>\<open>RCReference() : pointer_(nullptr) {}\<close>\<close>

definition RCReference_ctor :: "href \<Rightarrow> world \<Rightarrow> world" where
  "RCReference_ctor this st = st\<lparr>handles := (handles st)(this \<mapsto> nullptr)\<rparr>"

text \<open>
  \<^verbatim>\<open>
  RCReference(RCReference&& other) : pointer_(other.pointer_) {
    other.pointer_ = nullptr;
  }
  \<close>
  The converting constructor from \<^verbatim>\<open>RCReference<U>&&\<close> has the same body.
\<close>

definition RCReference_move_ctor :: "href \<Rightarrow> href \<Rightarrow> world \<Rightarrow> fault + world" where
  "RCReference_move_ctor this other st =
     (case handles st other of
        None \<Rightarrow> Inl UndefinedBehaviour
      | Some q \<Rightarrow>
          (let st1 = st\<lparr>handles := (handles st)(this \<mapsto> q)\<rparr>
           in Inr (st1\<lparr>handles := (handles st1)(other \<mapsto> nullptr)\<rparr>)))"

text \<open>
  \<^verbatim>\<open>
  RCReference& operator=(RCReference&& other) {
    if (pointer_) pointer_->DropRef();
    pointer_ = other.pointer_;
    other.pointer_ = nullptr;
    return *this;
  }
  \<close>
\<close>

definition RCReference_move_assign_with ::
    "hook \<Rightarrow> href \<Rightarrow> href \<Rightarrow> world \<Rightarrow> fault + world" where
  "RCReference_move_assign_with D this other st =
     (case handles st this of
        None \<Rightarrow> Inl UndefinedBehaviour
      | Some p \<Rightarrow>
          (case drop_if_set_with D p st of
             Inl e \<Rightarrow> Inl e
           | Inr st1 \<Rightarrow>
               (case handles st1 other of
                  None \<Rightarrow> Inl UndefinedBehaviour
                | Some q \<Rightarrow>
                    (case handles st1 this of
                       None \<Rightarrow> Inl UndefinedBehaviour
                     | Some _ \<Rightarrow>
                         (let st2 = st1\<lparr>handles := (handles st1)(this \<mapsto> q)\<rparr>
                          in Inr (st2\<lparr>handles := (handles st2)(other \<mapsto> nullptr)\<rparr>))))))"

definition RCReference_move_assign :: "href \<Rightarrow> href \<Rightarrow> world \<Rightarrow> fault + world" where
  "RCReference_move_assign this other st = RCReference_move_assign_with Destroy this other st"

text \<open>
  \<^verbatim>\<open>
  ~RCReference() {
    if (pointer_ != nullptr) pointer_->DropRef();
  }
  \<close>
\<close>

definition RCReference_dtor_with :: "hook \<Rightarrow> href \<Rightarrow> world \<Rightarrow> fault + world" where
  "RCReference_dtor_with D this st =
     (case handles st this of
        None \<Rightarrow> Inl UndefinedBehaviour
      | Some p \<Rightarrow>
          (case drop_if_set_with D p st of
             Inl e \<Rightarrow> Inl e
           | Inr st1 \<Rightarrow> Inr (st1\<lparr>handles := (handles st1)(this := None)\<rparr>)))"

definition RCReference_dtor :: "href \<Rightarrow> world \<Rightarrow> fault + world" where
  "RCReference_dtor this st = RCReference_dtor_with Destroy this st"

text \<open>
  \<^verbatim>\<open>
  void reset(T* pointer = nullptr) {
    if (pointer_ != nullptr) pointer_->DropRef();
    pointer_ = pointer;
  }
  \<close>
\<close>

definition reset_with :: "hook \<Rightarrow> href \<Rightarrow> pointer \<Rightarrow> world \<Rightarrow> fault + world" where
  "reset_with D this pointer st =
     (case handles st this of
        None \<Rightarrow> Inl UndefinedBehaviour
      | Some p \<Rightarrow>
          (case drop_if_set_with D p st of
             Inl e \<Rightarrow> Inl e
           | Inr st1 \<Rightarrow>
               (case handles st1 this of
                  None \<Rightarrow> Inl UndefinedBehaviour
                | Some _ \<Rightarrow> Inr (st1\<lparr>handles := (handles st1)(this \<mapsto> pointer)\<rparr>))))"

definition reset :: "href \<Rightarrow> pointer \<Rightarrow> world \<Rightarrow> fault + world" where
  "reset this pointer st = reset_with Destroy this pointer st"

text \<open>
  \<^verbatim>\<open>
  T* release() {
    T* tmp = pointer_;
    pointer_ = nullptr;
    return tmp;
  }
  \<close>
\<close>

definition release :: "href \<Rightarrow> world \<Rightarrow> fault + pointer \<times> world" where
  "release this st =
     (case handles st this of
        None \<Rightarrow> Inl UndefinedBehaviour
      | Some tmp \<Rightarrow> Inr (tmp, st\<lparr>handles := (handles st)(this \<mapsto> nullptr)\<rparr>))"

text \<open>
  \<^verbatim>\<open>
  T& operator*() const {
    assert(pointer_ && "null RCReference");
    return *pointer_;
  }
  \<close>
  The result is the object referred to.
\<close>

definition operator_star :: "href \<Rightarrow> world \<Rightarrow> fault + addr \<times> world" where
  "operator_star this st =
     (case handles st this of
        None \<Rightarrow> Inl UndefinedBehaviour
      | Some p \<Rightarrow>
          if \<not> NDEBUG st \<and> p = nullptr then Inl AssertionFailed
          else (case p of nullptr \<Rightarrow> Inl UndefinedBehaviour | Ptr a \<Rightarrow> Inr (a, st)))"

text \<open>
  \<^verbatim>\<open>
  T* operator->() const {
    assert(pointer_ && "null RCReference");
    return pointer_;
  }
  \<close>
\<close>

definition operator_arrow :: "href \<Rightarrow> world \<Rightarrow> fault + pointer \<times> world" where
  "operator_arrow this st =
     (case handles st this of
        None \<Rightarrow> Inl UndefinedBehaviour
      | Some p \<Rightarrow>
          if \<not> NDEBUG st \<and> p = nullptr then Inl AssertionFailed
          else Inr (p, st))"

text \<open>\<^verbatim>\<open>T* get() const { return pointer_; }\<close>\<close>

definition get :: "href \<Rightarrow> world \<Rightarrow> fault + pointer \<times> world" where
  "get this st =
     (case handles st this of
        None \<Rightarrow> Inl UndefinedBehaviour
      | Some p \<Rightarrow> Inr (p, st))"

text \<open>\<^verbatim>\<open>explicit operator bool() const { return pointer_ != nullptr; }\<close>\<close>

definition operator_bool :: "href \<Rightarrow> world \<Rightarrow> fault + bool \<times> world" where
  "operator_bool this st =
     (case handles st this of
        None \<Rightarrow> Inl UndefinedBehaviour
      | Some p \<Rightarrow> Inr (p \<noteq> nullptr, st))"

text \<open>
  \<^verbatim>\<open>
  void swap(RCReference& other) {
    using std::swap;
    swap(pointer_, other.pointer_);
  }
  \<close>
\<close>

definition swap_handles :: "href \<Rightarrow> href \<Rightarrow> world \<Rightarrow> fault + world" where
  "swap_handles this other st =
     (case handles st this of
        None \<Rightarrow> Inl UndefinedBehaviour
      | Some p \<Rightarrow>
          (case handles st other of
             None \<Rightarrow> Inl UndefinedBehaviour
           | Some q \<Rightarrow>
               (let st1 = st\<lparr>handles := (handles st)(this \<mapsto> q)\<rparr>
                in Inr (st1\<lparr>handles := (handles st1)(other \<mapsto> p)\<rparr>))))"

text \<open>
  \<^verbatim>\<open>
  template <typename T>
  RCReference<T> FormRef(T* pointer) {
    RCReference<T> ref;
    ref.pointer_ = pointer;
    pointer->AddRef();
    return ref;
  }
  \<close>
  The local \<^verbatim>\<open>ref\<close> is the returned handle, built at \<open>ret\<close>.
\<close>

definition FormRef :: "href \<Rightarrow> pointer \<Rightarrow> world \<Rightarrow> fault + world" where
  "FormRef ret pointer st =
     (let st1 = RCReference_ctor ret st;
          st2 = st1\<lparr>handles := (handles st1)(ret \<mapsto> pointer)\<rparr>
      in case pointer of
           nullptr \<Rightarrow> Inl UndefinedBehaviour
         | Ptr a \<Rightarrow> AddRef a st2)"

text \<open>
  \<^verbatim>\<open>
  template <typename T>
  RCReference<T> TakeRef(T* pointer) {
    RCReference<T> ref;
    ref.pointer_ = pointer;
    return ref;
  }
  \<close>
\<close>

definition TakeRef :: "href \<Rightarrow> pointer \<Rightarrow> world \<Rightarrow> world" where
  "TakeRef ret pointer st =
     (let st1 = RCReference_ctor ret st
      in st1\<lparr>handles := (handles st1)(ret \<mapsto> pointer)\<rparr>)"

text \<open>
  \<^verbatim>\<open>
  template <typename T>
  RCReference<T> RCReference<T>::CopyRef() const {
    if (!pointer_) return RCReference();
    return FormRef(get());
  }
  \<close>
\<close>

definition CopyRef :: "href \<Rightarrow> href \<Rightarrow> world \<Rightarrow> fault + world" where
  "CopyRef ret this st =
     (case handles st this of
        None \<Rightarrow> Inl UndefinedBehaviour
      | Some p \<Rightarrow>
          if p = nullptr then Inr (RCReference_ctor ret st)
          else (case get this st of
                  Inl e \<Rightarrow> Inl e
                | Inr (q, st1) \<Rightarrow> FormRef ret q st1))"

subsection \<open>A client class with a handle as a member\<close>

text \<open>
  \<^verbatim>\<open>
  struct Node : ReferenceCounted<Node> {
    RCReference<Node> next;
  };
  \<close>
  \<^verbatim>\<open>Node\<close> inherits \<^verbatim>\<open>Destroy()\<close>. Its \<^verbatim>\<open>delete\<close> runs \<^verbatim>\<open>~Node\<close>, which
  destroys the member \<^verbatim>\<open>next\<close> and then the base \<^verbatim>\<open>ReferenceCounted<Node>\<close>, and
  frees the node. The member of the node \<open>a\<close> is the handle at \<open>next_at a\<close>. The
  destructor of \<^verbatim>\<open>next\<close> may drop the last unit of another node, whose hook runs
  inside this one; the first argument bounds the depth of that nesting, and a list
  longer than the bound exhausts the stack.
\<close>

primrec Destroy_Node :: "nat \<Rightarrow> (addr \<Rightarrow> href) \<Rightarrow> hook" where
  "Destroy_Node 0 next_at a st = Inl UndefinedBehaviour"
| "Destroy_Node (Suc n) next_at a st =
     (case RCReference_dtor_with (Destroy_Node n next_at) (next_at a)
             (st\<lparr>destroy_calls := destroy_calls st @ [a]\<rparr>) of
        Inl e \<Rightarrow> Inl e
      | Inr st1 \<Rightarrow> ReferenceCounted_dtor a st1)"

subsection \<open>Sequences of calls\<close>

text \<open>
  A client of the header is a sequence of calls. With several threads, the atomic
  read-modify-write operations on one \<^verbatim>\<open>ref_count_\<close> happen in one total order, and
  a run of the threads is an interleaving of their calls; \<open>run\<close> executes such a
  sequence and stops at the first fault. \<open>Destruct\<close> is the destruction of an object
  by the client itself, not through \<^verbatim>\<open>DropRef\<close>.
\<close>

datatype call =
    New
  | Destruct addr
  | CallAddRef addr
  | CallDropRef addr
  | HandleNew href
  | HandleMove href href
  | HandleAssign href href
  | HandleEnd href
  | HandleReset href pointer
  | HandleRelease href
  | HandleSwap href href
  | CallFormRef href pointer
  | CallTakeRef href pointer
  | CallCopyRef href href

fun exec :: "call \<Rightarrow> world \<Rightarrow> fault + world" where
  "exec New st = Inr (snd (ReferenceCounted_ctor st))"
| "exec (Destruct a) st = ReferenceCounted_dtor a st"
| "exec (CallAddRef a) st = AddRef a st"
| "exec (CallDropRef a) st = DropRef a st"
| "exec (HandleNew h) st = Inr (RCReference_ctor h st)"
| "exec (HandleMove h other) st = RCReference_move_ctor h other st"
| "exec (HandleAssign h other) st = RCReference_move_assign h other st"
| "exec (HandleEnd h) st = RCReference_dtor h st"
| "exec (HandleReset h p) st = reset h p st"
| "exec (HandleRelease h) st = map_sum id snd (release h st)"
| "exec (HandleSwap h other) st = swap_handles h other st"
| "exec (CallFormRef h p) st = FormRef h p st"
| "exec (CallTakeRef h p) st = Inr (TakeRef h p st)"
| "exec (CallCopyRef h other) st = CopyRef h other st"

fun run :: "call list \<Rightarrow> world \<Rightarrow> fault + world" where
  "run [] st = Inr st"
| "run (c # cs) st = (case exec c st of Inl e \<Rightarrow> Inl e | Inr st1 \<Rightarrow> run cs st1)"

subsection \<open>Threads\<close>

text \<open>
  Several threads call \<^verbatim>\<open>AddRef\<close> and \<^verbatim>\<open>DropRef\<close> on one object. The state they
  share is \<^verbatim>\<open>ref_count_\<close>, and every access to it is one atomic read-modify-write.
  A run of the threads is therefore a sequence of steps, each of them the step of one
  thread: the \<^verbatim>\<open>fetch_add\<close> of \<^verbatim>\<open>AddRef\<close>, the \<^verbatim>\<open>fetch_sub\<close> of \<^verbatim>\<open>DropRef\<close>,
  or the call of \<^verbatim>\<open>Destroy()\<close> by a thread whose \<^verbatim>\<open>fetch_sub\<close> has returned 1.
  Between the \<^verbatim>\<open>fetch_sub\<close> of a thread and its call of \<^verbatim>\<open>Destroy()\<close>, other
  threads may take any number of steps.

  The header leaves it to its clients who may call what. The rule is that of the
  units: a thread increments or decrements the count only through a unit of the object
  that it owns; \<^verbatim>\<open>AddRef\<close> makes one more unit, \<^verbatim>\<open>DropRef\<close> gives one up.
  \<open>owned\<close> is the number of units that a thread owns. \<open>in_drop\<close> says that the
  thread is inside \<^verbatim>\<open>DropRef\<close>: its \<^verbatim>\<open>fetch_sub\<close> has returned 1 and it has not
  yet called \<^verbatim>\<open>Destroy()\<close>. \<open>observed\<close> counts the calls of \<^verbatim>\<open>fetch_sub\<close> that
  returned 1, \<open>hooks\<close> the calls of \<^verbatim>\<open>Destroy()\<close> that returned.
\<close>

record thread =
  owned :: nat
  in_drop :: bool

record sched_state =
  shared :: world
  threads :: "thread list"
  observed :: nat
  hooks :: nat








subsection \<open>An invariant of the stores\<close>

text \<open>
  An invariant of every state that a sequence of calls reaches from \<open>init\<close>: the
  live objects have identities below \<open>next_object\<close>, and the global counter is
  their number, as a 64-bit value.
\<close>

definition counter_inv :: "world \<Rightarrow> bool" where
  "counter_inv st \<longleftrightarrow>
     dom (objects st) \<subseteq> {..<next_object st}
   \<and> total_reference_counted_objects st = of_nat (card (dom (objects st)))"

section \<open>Properties\<close>

subsection \<open>Auxiliary facts\<close>

lemma minus_one_word32: "(- 1 :: 32 word) = 0xFFFFFFFF"
  by simp

lemma unat_minus_one_word32: "unat (- 1 :: 32 word) = 4294967295"
  unfolding minus_one_word32 by simp

text \<open>
  With the hook \<open>Destroy\<close>, which leaves the handles alone, the member functions are
  these.
\<close>

lemma DropRef_eq:
  "DropRef a st =
     (case objects st a of
        None \<Rightarrow> Inl UndefinedBehaviour
      | Some c \<Rightarrow>
          (let st1 = st\<lparr>objects := (objects st)(a \<mapsto> c - 1)\<rparr>
           in if c = 1 then Destroy a st1 else Inr st1))"
  by (simp add: DropRef_def DropRef_with_def fetch_sub_def split: option.splits)

lemma drop_if_set_eq:
  "drop_if_set p st = (case p of nullptr \<Rightarrow> Inr st | Ptr a \<Rightarrow> DropRef a st)"
  by (simp add: drop_if_set_def drop_if_set_with_def DropRef_def split: pointer.splits)

text \<open>What \<^verbatim>\<open>DropRef\<close> does to a live object, in one equation.\<close>

lemma DropRef_live:
  assumes "objects st a = Some c"
  shows "DropRef a st =
     Inr (if c = 1
          then st\<lparr>objects := (objects st)(a := None),
                  total_reference_counted_objects := total_reference_counted_objects st - 1,
                  destroy_calls := destroy_calls st @ [a]\<rparr>
          else st\<lparr>objects := (objects st)(a \<mapsto> c - 1)\<rparr>)"
  using assms by (simp add: DropRef_eq Destroy_def ReferenceCounted_dtor_def)

lemma drop_if_set_handles: "drop_if_set p st = Inr st1 \<Longrightarrow> handles st1 = handles st"
proof (cases p)
  case nullptr
  then show "drop_if_set p st = Inr st1 \<Longrightarrow> handles st1 = handles st"
    by (simp add: drop_if_set_eq)
next
  case (Ptr a)
  assume "drop_if_set p st = Inr st1"
  with Ptr have drop: "DropRef a st = Inr st1" by (simp add: drop_if_set_eq)
  then obtain c where "objects st a = Some c"
    by (cases "objects st a") (simp_all add: DropRef_eq)
  with drop show "handles st1 = handles st"
    by (auto simp: DropRef_live split: if_splits)
qed

lemma RCReference_move_assign_eq:
  "RCReference_move_assign this other st =
     (case handles st this of
        None \<Rightarrow> Inl UndefinedBehaviour
      | Some p \<Rightarrow>
          (case drop_if_set p st of
             Inl e \<Rightarrow> Inl e
           | Inr st1 \<Rightarrow>
               (case handles st1 other of
                  None \<Rightarrow> Inl UndefinedBehaviour
                | Some q \<Rightarrow>
                    (let st2 = st1\<lparr>handles := (handles st1)(this \<mapsto> q)\<rparr>
                     in Inr (st2\<lparr>handles := (handles st2)(other \<mapsto> nullptr)\<rparr>)))))"
proof (cases "handles st this")
  case None
  then show ?thesis
    by (simp add: RCReference_move_assign_def RCReference_move_assign_with_def)
next
  case (Some p)
  show ?thesis
  proof (cases "drop_if_set p st")
    case (Inl e)
    with Some show ?thesis
      by (simp add: RCReference_move_assign_def RCReference_move_assign_with_def
            drop_if_set_def)
  next
    case (Inr st1)
    with Some drop_if_set_handles [OF Inr] show ?thesis
      by (simp add: RCReference_move_assign_def RCReference_move_assign_with_def
            drop_if_set_def split: option.splits)
  qed
qed

lemma RCReference_dtor_eq:
  "RCReference_dtor this st =
     (case handles st this of
        None \<Rightarrow> Inl UndefinedBehaviour
      | Some p \<Rightarrow>
          (case drop_if_set p st of
             Inl e \<Rightarrow> Inl e
           | Inr st1 \<Rightarrow> Inr (st1\<lparr>handles := (handles st1)(this := None)\<rparr>)))"
  by (simp add: RCReference_dtor_def RCReference_dtor_with_def drop_if_set_def
        split: option.splits)

lemma reset_eq:
  "reset this pointer st =
     (case handles st this of
        None \<Rightarrow> Inl UndefinedBehaviour
      | Some p \<Rightarrow>
          (case drop_if_set p st of
             Inl e \<Rightarrow> Inl e
           | Inr st1 \<Rightarrow> Inr (st1\<lparr>handles := (handles st1)(this \<mapsto> pointer)\<rparr>)))"
proof (cases "handles st this")
  case None
  then show ?thesis by (simp add: reset_def reset_with_def)
next
  case (Some p)
  show ?thesis
  proof (cases "drop_if_set p st")
    case (Inl e)
    with Some show ?thesis by (simp add: reset_def reset_with_def drop_if_set_def)
  next
    case (Inr st1)
    with Some drop_if_set_handles [OF Inr] show ?thesis
      by (simp add: reset_def reset_with_def drop_if_set_def)
  qed
qed

subsection \<open>The invariant is kept by every call\<close>

lemma DropRef_cases:
  assumes "DropRef a st = Inr st1"
  obtains c where "objects st a = Some c" and "c \<noteq> 1"
      and "st1 = st\<lparr>objects := (objects st)(a \<mapsto> c - 1)\<rparr>"
  | "objects st a = Some 1"
      and "st1 = st\<lparr>objects := (objects st)(a := None),
                  total_reference_counted_objects := total_reference_counted_objects st - 1,
                  destroy_calls := destroy_calls st @ [a]\<rparr>"
proof (cases "objects st a")
  case None
  with assms show ?thesis by (simp add: DropRef_eq)
next
  case (Some c)
  show ?thesis
  proof (cases "c = 1")
    case True
    with Some assms have "st1 = st\<lparr>objects := (objects st)(a := None),
                  total_reference_counted_objects := total_reference_counted_objects st - 1,
                  destroy_calls := destroy_calls st @ [a]\<rparr>"
      by (simp add: DropRef_live)
    with True Some show ?thesis by (intro that(2)) simp_all
  next
    case False
    with Some assms have "st1 = st\<lparr>objects := (objects st)(a \<mapsto> c - 1)\<rparr>"
      by (simp add: DropRef_live)
    with False Some show ?thesis by (intro that(1)) 
  qed
qed

lemma finite_dom_bounded: "dom m \<subseteq> {..<(n::nat)} \<Longrightarrow> finite (dom m)"
  by (rule finite_subset [where B = "{..<n}"]) simp_all

lemma word64_of_nat_Suc_minus_one: "(of_nat (Suc n) :: 64 word) - 1 = of_nat n"
  by simp

lemma counter_inv_remove:
  assumes "counter_inv st" and "objects st a = Some c"
  shows "counter_inv (st\<lparr>objects := (objects st)(a := None),
                  total_reference_counted_objects := total_reference_counted_objects st - 1\<rparr>)"
proof -
  have sub: "dom (objects st) \<subseteq> {..<next_object st}"
    and tot: "total_reference_counted_objects st = of_nat (card (dom (objects st)))"
    using assms(1) by (simp_all add: counter_inv_def)
  have fin: "finite (dom (objects st))"
    using sub by (rule finite_dom_bounded)
  have mem: "a \<in> dom (objects st)" using assms(2) by auto
  have "card (dom (objects st)) = Suc (card (dom (objects st) - {a}))"
    using fin mem by (rule card.remove)
  then have "total_reference_counted_objects st - 1 = of_nat (card (dom (objects st) - {a}))"
    using tot word64_of_nat_Suc_minus_one by metis
  moreover have "dom (objects st) - {a} \<subseteq> {..<next_object st}"
    using sub by blast
  ultimately show ?thesis
    unfolding counter_inv_def by (simp del: card_Diff_singleton)
qed

lemma counter_inv_DropRef:
  assumes "counter_inv st" and "DropRef a st = Inr st1"
  shows "counter_inv st1"
  using assms(2)
proof (cases rule: DropRef_cases)
  case (1 c)
  then have "dom (objects st1) = dom (objects st)" by auto
  with 1 assms(1) show ?thesis by (simp add: counter_inv_def)
next
  case 2
  have "counter_inv (st\<lparr>objects := (objects st)(a := None),
                  total_reference_counted_objects := total_reference_counted_objects st - 1\<rparr>)"
    using assms(1) 2(1) by (rule counter_inv_remove)
  with 2 show ?thesis by (simp add: counter_inv_def)
qed

lemma counter_inv_handles [simp]:
  "counter_inv (st\<lparr>handles := h\<rparr>) = counter_inv st"
  by (simp add: counter_inv_def)

lemma counter_inv_drop_if_set:
  assumes "drop_if_set p st = Inr st1" and "counter_inv st"
  shows "counter_inv st1"
proof (cases p)
  case nullptr
  with assms show ?thesis by (simp add: drop_if_set_eq)
next
  case (Ptr a)
  with assms(1) have "DropRef a st = Inr st1" by (simp add: drop_if_set_eq)
  with assms(2) show ?thesis by (rule counter_inv_DropRef)
qed

lemma counter_inv_AddRef:
  assumes "AddRef a st = Inr st1" and "counter_inv st"
  shows "counter_inv st1"
proof -
  from assms(1) obtain c where "objects st a = Some c"
    and "st1 = st\<lparr>objects := (objects st)(a \<mapsto> c + 1)\<rparr>"
    by (auto simp: AddRef_def split: option.splits)
  then have "dom (objects st1) = dom (objects st)" by auto
  with \<open>st1 = _\<close> assms(2) show ?thesis by (simp add: counter_inv_def)
qed

lemma counter_inv_ctor:
  assumes "counter_inv st"
  shows "counter_inv (snd (ReferenceCounted_ctor st))"
proof -
  have sub: "dom (objects st) \<subseteq> {..<next_object st}"
    and tot: "total_reference_counted_objects st = of_nat (card (dom (objects st)))"
    using assms by (simp_all add: counter_inv_def)
  have fin: "finite (dom (objects st))"
    using sub by (rule finite_dom_bounded)
  have fresh: "next_object st \<notin> dom (objects st)"
    using sub by auto
  have "card (insert (next_object st) (dom (objects st))) = Suc (card (dom (objects st)))"
    using fin fresh by (rule card_insert_disjoint)
  then have "total_reference_counted_objects st + 1 =
      of_nat (card (insert (next_object st) (dom (objects st))))"
    using tot by simp
  moreover have "insert (next_object st) (dom (objects st)) \<subseteq> {..<Suc (next_object st)}"
    using sub by auto
  ultimately show ?thesis
    unfolding counter_inv_def ReferenceCounted_ctor_def Let_def
    by (simp del: card_insert_if)
qed

lemma counter_inv_dtor:
  assumes "counter_inv st" and "ReferenceCounted_dtor a st = Inr st1"
  shows "counter_inv st1"
proof -
  from assms(2) obtain c where c: "objects st a = Some c"
    and st1: "st1 = st\<lparr>objects := (objects st)(a := None),
                  total_reference_counted_objects := total_reference_counted_objects st - 1\<rparr>"
    by (auto simp: ReferenceCounted_dtor_def split: option.splits if_splits)
  show ?thesis unfolding st1 using assms(1) c by (rule counter_inv_remove)
qed


lemma counter_inv_move_assign:
  assumes "RCReference_move_assign this other st = Inr st1" and "counter_inv st"
  shows "counter_inv st1"
proof -
  from assms(1) obtain p st0 h where "drop_if_set p st = Inr st0" and "st1 = st0\<lparr>handles := h\<rparr>"
    by (auto simp: RCReference_move_assign_eq Let_def split: option.splits sum.splits)
  with assms(2) show ?thesis by (simp add: counter_inv_drop_if_set)
qed

lemma counter_inv_handle_dtor:
  assumes "RCReference_dtor this st = Inr st1" and "counter_inv st"
  shows "counter_inv st1"
proof -
  from assms(1) obtain p st0 h where "drop_if_set p st = Inr st0" and "st1 = st0\<lparr>handles := h\<rparr>"
    by (auto simp: RCReference_dtor_eq split: option.splits sum.splits)
  with assms(2) show ?thesis by (simp add: counter_inv_drop_if_set)
qed

lemma counter_inv_reset:
  assumes "reset this q st = Inr st1" and "counter_inv st"
  shows "counter_inv st1"
proof -
  from assms(1) obtain p st0 h where "drop_if_set p st = Inr st0" and "st1 = st0\<lparr>handles := h\<rparr>"
    by (auto simp: reset_eq split: option.splits sum.splits)
  with assms(2) show ?thesis by (simp add: counter_inv_drop_if_set)
qed

lemma counter_inv_FormRef:
  assumes "FormRef ret p st = Inr st1" and "counter_inv st"
  shows "counter_inv st1"
proof -
  from assms(1) obtain a h where "AddRef a (st\<lparr>handles := h\<rparr>) = Inr st1"
    by (auto simp: FormRef_def RCReference_ctor_def Let_def split: pointer.splits)
  then show ?thesis
    by (rule counter_inv_AddRef) (simp add: assms(2))
qed

lemma counter_inv_CopyRef:
  assumes "CopyRef ret this st = Inr st1" and "counter_inv st"
  shows "counter_inv st1"
proof -
  from assms(1) have "st1 = RCReference_ctor ret st \<or> (\<exists>q. FormRef ret q st = Inr st1)"
    by (auto simp: CopyRef_def get_def split: option.splits if_splits)
  with assms(2) show ?thesis
    by (auto simp: RCReference_ctor_def intro: counter_inv_FormRef)
qed

lemma counter_inv_exec:
  assumes "exec c st = Inr st1" and "counter_inv st"
  shows "counter_inv st1"
proof (cases c)
  case New
  with assms show ?thesis by (auto simp: counter_inv_ctor)
next
  case (Destruct a)
  with assms show ?thesis by (simp add: counter_inv_dtor)
next
  case (CallAddRef a)
  with assms show ?thesis by (simp add: counter_inv_AddRef)
next
  case (CallDropRef a)
  with assms show ?thesis by (simp add: counter_inv_DropRef)
next
  case (HandleNew h)
  with assms show ?thesis by (auto simp: RCReference_ctor_def)
next
  case (HandleMove h other)
  with assms show ?thesis
    by (auto simp: RCReference_move_ctor_def Let_def split: option.splits)
next
  case (HandleAssign h other)
  with assms show ?thesis by (simp add: counter_inv_move_assign)
next
  case (HandleEnd h)
  with assms show ?thesis by (simp add: counter_inv_handle_dtor)
next
  case (HandleReset h p)
  with assms show ?thesis by (simp add: counter_inv_reset)
next
  case (HandleRelease h)
  with assms show ?thesis
    by (auto simp: release_def split: option.splits)
next
  case (HandleSwap h other)
  with assms show ?thesis
    by (auto simp: swap_handles_def Let_def split: option.splits)
next
  case (CallFormRef h p)
  with assms show ?thesis by (simp add: counter_inv_FormRef)
next
  case (CallTakeRef h p)
  with assms show ?thesis by (auto simp: TakeRef_def RCReference_ctor_def Let_def)
next
  case (CallCopyRef h other)
  with assms show ?thesis by (simp add: counter_inv_CopyRef)
qed

lemma counter_inv_run:
  "run cs st = Inr st1 \<Longrightarrow> counter_inv st \<Longrightarrow> counter_inv st1"
proof (induction cs arbitrary: st)
  case Nil
  then show ?case by simp
next
  case (Cons c cs)
  from Cons.prems(1) obtain st0 where step: "exec c st = Inr st0" and rest: "run cs st0 = Inr st1"
    by (auto split: sum.splits)
  from step Cons.prems(2) have "counter_inv st0" by (rule counter_inv_exec)
  with rest show ?case by (rule Cons.IH)
qed

lemma counter_inv_init: "counter_inv (init nd)"
  by (simp add: counter_inv_def init_def)

subsection \<open>Facts about single calls\<close>

text \<open>What \<^verbatim>\<open>DropRef\<close> does to a live object, whatever the hook.\<close>

lemma DropRef_with_live:
  assumes "objects st a = Some c"
  shows "DropRef_with D a st =
     (if c = 1 then D a (st\<lparr>objects := (objects st)(a \<mapsto> 0)\<rparr>)
      else Inr (st\<lparr>objects := (objects st)(a \<mapsto> c - 1)\<rparr>))"
  using assms by (simp add: DropRef_with_def fetch_sub_def)

text \<open>
  Move assignment onto a handle that points to \<open>a\<close>: the drop, then the stores in
  the state that the drop has left.
\<close>

lemma move_assign_with_unfold:
  assumes "handles st this = Some (Ptr a)"
  shows "RCReference_move_assign_with D this other st =
           (case DropRef_with D a st of
              Inl e \<Rightarrow> Inl e
            | Inr st1 \<Rightarrow>
                (case handles st1 other of
                   None \<Rightarrow> Inl UndefinedBehaviour
                 | Some q \<Rightarrow>
                     (case handles st1 this of
                        None \<Rightarrow> Inl UndefinedBehaviour
                      | Some p \<Rightarrow>
                          Inr (st1\<lparr>handles :=
                                 (handles st1)(this \<mapsto> q, other \<mapsto> nullptr)\<rparr>))))"
  using assms
  by (simp add: RCReference_move_assign_with_def drop_if_set_with_def
        split: sum.splits option.splits)

lemma unat_plus_one_word32:
  "c + 1 \<noteq> 0 \<Longrightarrow> unat (c + 1 :: 32 word) = unat c + 1"
  using unatSuc [of c] by (simp add: add.commute)

subsection \<open>Threads that own units\<close>











subsection \<open>\<^verbatim>\<open>DropRef\<close> and the destroy hook\<close>



subsection \<open>The assertion in the destructor\<close>

text \<open>
  C2, as the source has it. The destructor of an object whose count is not 0 aborts
  on the assertion only in a build without \<^verbatim>\<open>NDEBUG\<close>. In a build with
  \<^verbatim>\<open>NDEBUG\<close> the check does not exist: the destructor returns normally, the
  object is gone and the global counter is decremented.
\<close>

theorem dtor_assertion_debug_only:
  assumes "objects st a = Some c" and "c \<noteq> 0"
  shows "ReferenceCounted_dtor a st =
           (if NDEBUG st
            then Inr (st\<lparr>objects := (objects st)(a := None),
                         total_reference_counted_objects :=
                           total_reference_counted_objects st - 1\<rparr>)
            else Inl AssertionFailed)"
  using assms by (simp add: ReferenceCounted_dtor_def)

theorem dtor_assertion_debug_only_witness:
  "objects \<lparr>NDEBUG = False, objects = [0 \<mapsto> 1], handles = Map.empty,
      total_reference_counted_objects = 1, destroy_calls = [], next_object = 1\<rparr> 0 = Some 1
   \<and> (1 :: 32 word) \<noteq> 0
   \<and> ReferenceCounted_dtor 0
       \<lparr>NDEBUG = False, objects = [0 \<mapsto> 1], handles = Map.empty,
        total_reference_counted_objects = 1, destroy_calls = [], next_object = 1\<rparr>
      = Inl AssertionFailed"
  using dtor_assertion_debug_only
    [of "\<lparr>NDEBUG = False, objects = [0 \<mapsto> 1], handles = Map.empty,
        total_reference_counted_objects = 1, destroy_calls = [], next_object = 1\<rparr>" 0 1]
  by simp

text \<open>
  C2 as stated fails in a build with \<^verbatim>\<open>NDEBUG\<close>: the object below has count 1 and
  its destructor returns normally.
\<close>

theorem dtor_assertion_compiled_out:
  "objects \<lparr>NDEBUG = True, objects = [0 \<mapsto> 1], handles = Map.empty,
      total_reference_counted_objects = 1, destroy_calls = [], next_object = 1\<rparr> 0 = Some 1
   \<and> ReferenceCounted_dtor 0
     \<lparr>NDEBUG = True, objects = [0 \<mapsto> 1], handles = Map.empty,
      total_reference_counted_objects = 1, destroy_calls = [], next_object = 1\<rparr>
   = Inr \<lparr>NDEBUG = True, objects = Map.empty, handles = Map.empty,
      total_reference_counted_objects = 0, destroy_calls = [], next_object = 1\<rparr>
   \<and> ReferenceCounted_dtor 0
     \<lparr>NDEBUG = True, objects = [0 \<mapsto> 1], handles = Map.empty,
      total_reference_counted_objects = 1, destroy_calls = [], next_object = 1\<rparr>
   \<noteq> Inl AssertionFailed"
  by (simp add: ReferenceCounted_dtor_def)

subsection \<open>Moving a handle\<close>

text \<open>
  C3, as the source has it. Move construction changes no count: the new handle holds
  the pointer of the source and the source is empty. Move assignment onto an empty
  handle changes no count either. Move assignment onto a handle that points to an
  object \<open>a\<close> makes one change to a count of its own, the decrement of the count of
  \<open>a\<close> by \<^verbatim>\<open>DropRef\<close>, before the pointers are stored; nothing is done through the
  moved pointer. If the unit dropped is not the last unit of \<open>a\<close>, no other count
  changes, whatever the class of \<open>a\<close>: the count of the moved referent is unchanged
  if the destination pointed to another object, and is lower by one if it pointed to
  the same object, as in a self-move-assignment of a non-empty handle, which leaves
  the handle empty. If the unit is the last one, the hook of \<open>a\<close> runs on the state
  with that count at 0, and what else changes is what the hook does.
\<close>

theorem move_changes_counts_by_the_drop_only:
  assumes "handles st other = Some q"
  shows "RCReference_move_ctor this other st =
           Inr (st\<lparr>handles := (handles st)(this \<mapsto> q, other \<mapsto> nullptr)\<rparr>)
       \<and> (handles st this = Some nullptr \<longrightarrow>
            RCReference_move_assign_with D this other st =
              Inr (st\<lparr>handles := (handles st)(this \<mapsto> q, other \<mapsto> nullptr)\<rparr>))
       \<and> (\<forall>a c. handles st this = Some (Ptr a) \<and> objects st a = Some c \<and> c \<noteq> 1 \<longrightarrow>
            RCReference_move_assign_with D this other st =
              Inr (st\<lparr>objects := (objects st)(a \<mapsto> c - 1),
                      handles := (handles st)(this \<mapsto> q, other \<mapsto> nullptr)\<rparr>))
       \<and> (\<forall>a. handles st this = Some (Ptr a) \<and> objects st a = Some 1 \<longrightarrow>
            RCReference_move_assign_with D this other st =
              (case D a (st\<lparr>objects := (objects st)(a \<mapsto> 0)\<rparr>) of
                 Inl e \<Rightarrow> Inl e
               | Inr st1 \<Rightarrow>
                   (case handles st1 other of
                      None \<Rightarrow> Inl UndefinedBehaviour
                    | Some q1 \<Rightarrow>
                        (case handles st1 this of
                           None \<Rightarrow> Inl UndefinedBehaviour
                         | Some p1 \<Rightarrow>
                             Inr (st1\<lparr>handles :=
                                    (handles st1)(this \<mapsto> q1, other \<mapsto> nullptr)\<rparr>)))))
       \<and> ((handles st)(this \<mapsto> q, other \<mapsto> nullptr)) other = Some nullptr
       \<and> (this \<noteq> other \<longrightarrow>
            ((handles st)(this \<mapsto> q, other \<mapsto> nullptr)) this = Some q)"
proof -
  have ctor: "RCReference_move_ctor this other st =
           Inr (st\<lparr>handles := (handles st)(this \<mapsto> q, other \<mapsto> nullptr)\<rparr>)"
    using assms by (simp add: RCReference_move_ctor_def)
  have empty: "RCReference_move_assign_with D this other st =
              Inr (st\<lparr>handles := (handles st)(this \<mapsto> q, other \<mapsto> nullptr)\<rparr>)"
    if "handles st this = Some nullptr"
    using that assms
    by (simp add: RCReference_move_assign_with_def drop_if_set_with_def)
  have shared: "RCReference_move_assign_with D this other st =
              Inr (st\<lparr>objects := (objects st)(a \<mapsto> c - 1),
                      handles := (handles st)(this \<mapsto> q, other \<mapsto> nullptr)\<rparr>)"
    if "handles st this = Some (Ptr a)" and "objects st a = Some c" and "c \<noteq> 1" for a c
    using move_assign_with_unfold [OF that(1), of D other] that assms
    by (simp add: DropRef_with_live)
  have last: "RCReference_move_assign_with D this other st =
              (case D a (st\<lparr>objects := (objects st)(a \<mapsto> 0)\<rparr>) of
                 Inl e \<Rightarrow> Inl e
               | Inr st1 \<Rightarrow>
                   (case handles st1 other of
                      None \<Rightarrow> Inl UndefinedBehaviour
                    | Some q1 \<Rightarrow>
                        (case handles st1 this of
                           None \<Rightarrow> Inl UndefinedBehaviour
                         | Some p1 \<Rightarrow>
                             Inr (st1\<lparr>handles :=
                                    (handles st1)(this \<mapsto> q1, other \<mapsto> nullptr)\<rparr>))))"
    if "handles st this = Some (Ptr a)" and "objects st a = Some 1" for a
    using move_assign_with_unfold [OF that(1), of D other] that(2)
    by (simp add: DropRef_with_live)
  from ctor empty shared last show ?thesis by simp
qed

text \<open>
  The hook is that of \<^verbatim>\<open>Node\<close>, the member of node \<open>a\<close> being handle \<open>10 + a\<close>.
  Handle 1 owns one of the two units of node 1, handle 0 the only unit of node 0:
  after \<^verbatim>\<open>h1 = std::move(h0)\<close> the count of node 1 is 1 and the count of node 0 is
  still 1. After \<^verbatim>\<open>h2 = std::move(h0)\<close> with an empty \<^verbatim>\<open>h2\<close>, and after building
  \<^verbatim>\<open>h2\<close> from \<^verbatim>\<open>std::move(h0)\<close>, nothing but the handles has changed. Handle 1
  owns the only unit of node 1, whose member is empty: in \<^verbatim>\<open>h1 = std::move(h0)\<close>
  the hook destroys node 1 with its member before the pointers are stored.
\<close>

theorem move_changes_counts_by_the_drop_only_witness:
  "RCReference_move_assign_with (Destroy_Node 2 ((+) 10)) 1 0
     \<lparr>NDEBUG = False, objects = [0 \<mapsto> 1, 1 \<mapsto> 2], handles = [0 \<mapsto> Ptr 0, 1 \<mapsto> Ptr 1],
      total_reference_counted_objects = 2, destroy_calls = [], next_object = 2\<rparr>
   = Inr \<lparr>NDEBUG = False, objects = [0 \<mapsto> 1, 1 \<mapsto> 1],
      handles = [0 \<mapsto> nullptr, 1 \<mapsto> Ptr 0],
      total_reference_counted_objects = 2, destroy_calls = [], next_object = 2\<rparr>
   \<and> RCReference_move_assign_with (Destroy_Node 2 ((+) 10)) 2 0
     \<lparr>NDEBUG = False, objects = [0 \<mapsto> 1], handles = [0 \<mapsto> Ptr 0, 2 \<mapsto> nullptr],
      total_reference_counted_objects = 1, destroy_calls = [], next_object = 1\<rparr>
   = Inr \<lparr>NDEBUG = False, objects = [0 \<mapsto> 1], handles = [0 \<mapsto> nullptr, 2 \<mapsto> Ptr 0],
      total_reference_counted_objects = 1, destroy_calls = [], next_object = 1\<rparr>
   \<and> RCReference_move_ctor 2 0
     \<lparr>NDEBUG = False, objects = [0 \<mapsto> 1], handles = [0 \<mapsto> Ptr 0, 2 \<mapsto> nullptr],
      total_reference_counted_objects = 1, destroy_calls = [], next_object = 1\<rparr>
   = Inr \<lparr>NDEBUG = False, objects = [0 \<mapsto> 1], handles = [0 \<mapsto> nullptr, 2 \<mapsto> Ptr 0],
      total_reference_counted_objects = 1, destroy_calls = [], next_object = 1\<rparr>
   \<and> RCReference_move_assign_with (Destroy_Node 2 ((+) 10)) 1 0
     \<lparr>NDEBUG = False, objects = [0 \<mapsto> 1, 1 \<mapsto> 1],
      handles = [0 \<mapsto> Ptr 0, 1 \<mapsto> Ptr 1, 10 \<mapsto> nullptr, 11 \<mapsto> nullptr],
      total_reference_counted_objects = 2, destroy_calls = [], next_object = 2\<rparr>
   = Inr \<lparr>NDEBUG = False, objects = [0 \<mapsto> 1],
      handles = [0 \<mapsto> nullptr, 1 \<mapsto> Ptr 0, 10 \<mapsto> nullptr],
      total_reference_counted_objects = 1, destroy_calls = [1], next_object = 2\<rparr>"
  using move_changes_counts_by_the_drop_only
    [of "\<lparr>NDEBUG = False, objects = [0 \<mapsto> 1, 1 \<mapsto> 2], handles = [0 \<mapsto> Ptr 0, 1 \<mapsto> Ptr 1],
      total_reference_counted_objects = 2, destroy_calls = [], next_object = 2\<rparr>" 0 "Ptr 0" 1 "Destroy_Node 2 ((+) 10)"]
    move_changes_counts_by_the_drop_only
    [of "\<lparr>NDEBUG = False, objects = [0 \<mapsto> 1], handles = [0 \<mapsto> Ptr 0, 2 \<mapsto> nullptr],
      total_reference_counted_objects = 1, destroy_calls = [], next_object = 1\<rparr>" 0 "Ptr 0" 2 "Destroy_Node 2 ((+) 10)"]
    move_changes_counts_by_the_drop_only
    [of "\<lparr>NDEBUG = False, objects = [0 \<mapsto> 1, 1 \<mapsto> 1],
      handles = [0 \<mapsto> Ptr 0, 1 \<mapsto> Ptr 1, 10 \<mapsto> nullptr, 11 \<mapsto> nullptr],
      total_reference_counted_objects = 2, destroy_calls = [], next_object = 2\<rparr>" 0 "Ptr 0" 1 "Destroy_Node 2 ((+) 10)"]
  by (simp add: RCReference_dtor_with_def drop_if_set_with_def ReferenceCounted_dtor_def
        numeral_2_eq_2 fun_upd_twist)

text \<open>
  C3 as stated fails for a self-move-assignment. Handles 0 and 1 each own a unit of
  object 0, whose count is 2. After \<^verbatim>\<open>h0 = std::move(h0)\<close> the count is 1 and
  handle 0 is empty.
\<close>

theorem self_move_assign_changes_count:
  "RCReference_move_assign 0 0
     \<lparr>NDEBUG = False, objects = [0 \<mapsto> 2], handles = [0 \<mapsto> Ptr 0, 1 \<mapsto> Ptr 0],
      total_reference_counted_objects = 1, destroy_calls = [], next_object = 1\<rparr>
   = Inr \<lparr>NDEBUG = False, objects = [0 \<mapsto> 1], handles = [0 \<mapsto> nullptr, 1 \<mapsto> Ptr 0],
      total_reference_counted_objects = 1, destroy_calls = [], next_object = 1\<rparr>
   \<and> objects \<lparr>NDEBUG = False, objects = [0 \<mapsto> 2], handles = [0 \<mapsto> Ptr 0, 1 \<mapsto> Ptr 0],
      total_reference_counted_objects = 1, destroy_calls = [], next_object = 1\<rparr> 0 = Some 2
   \<and> objects \<lparr>NDEBUG = False, objects = [0 \<mapsto> 1], handles = [0 \<mapsto> nullptr, 1 \<mapsto> Ptr 0],
      total_reference_counted_objects = 1, destroy_calls = [], next_object = 1\<rparr> 0 = Some 1"
  by (simp add: RCReference_move_assign_eq drop_if_set_eq DropRef_live fun_upd_twist)

text \<open>
  C4, as the source has it. Move assignment onto a handle that points to an object
  \<open>a\<close> starts with \<^verbatim>\<open>a->DropRef()\<close> on the state before the call, on every path;
  if the drop faults, so does the assignment. The two stores follow, in the state that
  the drop has left. If both handles are alive in that state, the pointer that the
  source holds there is stored in the destination and the source is emptied; in a
  self-move-assignment the handle is then empty. That is the case whenever the unit
  dropped is not the last unit of \<open>a\<close>. If the hook of \<open>a\<close> has ended the lifetime
  of the source or of the destination, the assignment accesses a destroyed handle and
  has no defined result.
\<close>

theorem move_assign_drops_old_unit_first:
  assumes "handles st this = Some (Ptr a)"
  shows "RCReference_move_assign_with D this other st =
           (case DropRef_with D a st of
              Inl e \<Rightarrow> Inl e
            | Inr st1 \<Rightarrow>
                (case handles st1 other of
                   None \<Rightarrow> Inl UndefinedBehaviour
                 | Some q \<Rightarrow>
                     (case handles st1 this of
                        None \<Rightarrow> Inl UndefinedBehaviour
                      | Some p \<Rightarrow>
                          Inr (st1\<lparr>handles :=
                                 (handles st1)(this \<mapsto> q, other \<mapsto> nullptr)\<rparr>))))
       \<and> (\<forall>c q. objects st a = Some c \<and> c \<noteq> 1 \<and> handles st other = Some q \<longrightarrow>
            RCReference_move_assign_with D this other st =
              Inr (st\<lparr>objects := (objects st)(a \<mapsto> c - 1),
                      handles := (handles st)(this \<mapsto> q, other \<mapsto> nullptr)\<rparr>))
       \<and> (\<forall>st'. RCReference_move_assign_with D this other st = Inr st' \<longrightarrow>
            handles st' other = Some nullptr
          \<and> (this = other \<longrightarrow> handles st' this = Some nullptr)
          \<and> (\<exists>st1 q. DropRef_with D a st = Inr st1
                \<and> handles st1 other = Some q
                \<and> objects st' = objects st1
                \<and> (this \<noteq> other \<longrightarrow> handles st' this = Some q)))"
proof -
  note eq = move_assign_with_unfold [OF assms, of D other]
  have shared: "RCReference_move_assign_with D this other st =
              Inr (st\<lparr>objects := (objects st)(a \<mapsto> c - 1),
                      handles := (handles st)(this \<mapsto> q, other \<mapsto> nullptr)\<rparr>)"
    if "objects st a = Some c" and "c \<noteq> 1" and "handles st other = Some q" for c q
    using eq that assms by (simp add: DropRef_with_live)
  have after: "handles st' other = Some nullptr
          \<and> (this = other \<longrightarrow> handles st' this = Some nullptr)
          \<and> (\<exists>st1 q. DropRef_with D a st = Inr st1
                \<and> handles st1 other = Some q
                \<and> objects st' = objects st1
                \<and> (this \<noteq> other \<longrightarrow> handles st' this = Some q))"
    if "RCReference_move_assign_with D this other st = Inr st'" for st'
    using that unfolding eq by (auto split: sum.splits option.splits)
  from eq shared after show ?thesis by blast
qed

text \<open>
  The hook is that of \<^verbatim>\<open>Node\<close>, the member of node \<open>a\<close> being handle \<open>10 + a\<close>.
  Self-move-assignment of the handle that owns one of two units: the count becomes 1
  and the handle is empty. Assignment between two handles of different nodes with
  count 2: the count of the old referent becomes 1, the other count stays 2.
  Assignment onto the handle that owns the only unit of node 1, whose member is empty:
  the hook destroys node 1 with its member, and then the pointers are stored.
\<close>

theorem move_assign_drops_old_unit_first_witness:
  "handles \<lparr>NDEBUG = False, objects = [0 \<mapsto> 2], handles = [0 \<mapsto> Ptr 0],
        total_reference_counted_objects = 1, destroy_calls = [], next_object = 1\<rparr> 0
     = Some (Ptr 0)
   \<and> RCReference_move_assign_with (Destroy_Node 2 ((+) 10)) 0 0
       \<lparr>NDEBUG = False, objects = [0 \<mapsto> 2], handles = [0 \<mapsto> Ptr 0],
        total_reference_counted_objects = 1, destroy_calls = [], next_object = 1\<rparr>
     = Inr \<lparr>NDEBUG = False, objects = [0 \<mapsto> 1], handles = [0 \<mapsto> nullptr],
        total_reference_counted_objects = 1, destroy_calls = [], next_object = 1\<rparr>
   \<and> RCReference_move_assign_with (Destroy_Node 2 ((+) 10)) 1 0
       \<lparr>NDEBUG = False, objects = [0 \<mapsto> 2, 1 \<mapsto> 2],
        handles = [0 \<mapsto> Ptr 0, 1 \<mapsto> Ptr 1],
        total_reference_counted_objects = 2, destroy_calls = [], next_object = 2\<rparr>
     = Inr \<lparr>NDEBUG = False, objects = [0 \<mapsto> 2, 1 \<mapsto> 1],
        handles = [0 \<mapsto> nullptr, 1 \<mapsto> Ptr 0],
        total_reference_counted_objects = 2, destroy_calls = [], next_object = 2\<rparr>
   \<and> RCReference_move_assign_with (Destroy_Node 2 ((+) 10)) 1 0
     \<lparr>NDEBUG = False, objects = [0 \<mapsto> 1, 1 \<mapsto> 1],
      handles = [0 \<mapsto> Ptr 0, 1 \<mapsto> Ptr 1, 10 \<mapsto> nullptr, 11 \<mapsto> nullptr],
      total_reference_counted_objects = 2, destroy_calls = [], next_object = 2\<rparr>
   = Inr \<lparr>NDEBUG = False, objects = [0 \<mapsto> 1],
      handles = [0 \<mapsto> nullptr, 1 \<mapsto> Ptr 0, 10 \<mapsto> nullptr],
      total_reference_counted_objects = 1, destroy_calls = [1], next_object = 2\<rparr>"
  using move_assign_drops_old_unit_first
    [of "\<lparr>NDEBUG = False, objects = [0 \<mapsto> 2], handles = [0 \<mapsto> Ptr 0],
        total_reference_counted_objects = 1, destroy_calls = [], next_object = 1\<rparr>"
        0 0 "Destroy_Node 2 ((+) 10)" 0]
    move_assign_drops_old_unit_first
    [of "\<lparr>NDEBUG = False, objects = [0 \<mapsto> 2, 1 \<mapsto> 2],
        handles = [0 \<mapsto> Ptr 0, 1 \<mapsto> Ptr 1],
        total_reference_counted_objects = 2, destroy_calls = [], next_object = 2\<rparr>"
        1 1 "Destroy_Node 2 ((+) 10)" 0]
    move_assign_drops_old_unit_first
    [of "\<lparr>NDEBUG = False, objects = [0 \<mapsto> 1, 1 \<mapsto> 1],
      handles = [0 \<mapsto> Ptr 0, 1 \<mapsto> Ptr 1, 10 \<mapsto> nullptr, 11 \<mapsto> nullptr],
      total_reference_counted_objects = 2, destroy_calls = [], next_object = 2\<rparr>"
        1 1 "Destroy_Node 2 ((+) 10)" 0]
  by (simp add: DropRef_with_def fetch_sub_def RCReference_dtor_with_def
        drop_if_set_with_def ReferenceCounted_dtor_def numeral_2_eq_2 fun_upd_twist)

text \<open>
  C4 as stated fails when the source is a member of the object that the destination
  releases. \<^verbatim>\<open>head\<close> is handle 0 and owns the only unit of node 0; the member
  \<^verbatim>\<open>next\<close> of node 0 is handle 1 and owns the only unit of node 1, whose member is
  the empty handle 2. This state is built by five calls from the start. In
  \<^verbatim>\<open>head = std::move(head->next)\<close> the drop of node 0 returns normally, having
  destroyed both nodes and with them handles 1 and 2; the assignment then reads
  \<^verbatim>\<open>pointer_\<close> of handle 1, and no pointer is stored.

  It fails for a self-move-assignment in the same way. The member \<^verbatim>\<open>next\<close> of node
  0, handle 1, owns the only unit of node 0 itself. In
  \<^verbatim>\<open>n->next = std::move(n->next)\<close> the drop destroys the node and its member, and
  the assignment reads \<^verbatim>\<open>pointer_\<close> of the destroyed handle.
\<close>

theorem move_assign_from_member_of_released_object:
  "run [New, New, CallTakeRef 0 (Ptr 0), CallTakeRef 1 (Ptr 1), HandleNew 2] (init False)
   = Inr \<lparr>NDEBUG = False, objects = [0 \<mapsto> 1, 1 \<mapsto> 1],
        handles = [0 \<mapsto> Ptr 0, 1 \<mapsto> Ptr 1, 2 \<mapsto> nullptr],
        total_reference_counted_objects = 2, destroy_calls = [], next_object = 2\<rparr>
   \<and> DropRef_with (Destroy_Node 2 Suc) 0
       \<lparr>NDEBUG = False, objects = [0 \<mapsto> 1, 1 \<mapsto> 1],
        handles = [0 \<mapsto> Ptr 0, 1 \<mapsto> Ptr 1, 2 \<mapsto> nullptr],
        total_reference_counted_objects = 2, destroy_calls = [], next_object = 2\<rparr>
     = Inr \<lparr>NDEBUG = False, objects = Map.empty, handles = [0 \<mapsto> Ptr 0],
        total_reference_counted_objects = 0, destroy_calls = [0, 1], next_object = 2\<rparr>
   \<and> RCReference_move_assign_with (Destroy_Node 2 Suc) 0 1
       \<lparr>NDEBUG = False, objects = [0 \<mapsto> 1, 1 \<mapsto> 1],
        handles = [0 \<mapsto> Ptr 0, 1 \<mapsto> Ptr 1, 2 \<mapsto> nullptr],
        total_reference_counted_objects = 2, destroy_calls = [], next_object = 2\<rparr>
     = Inl UndefinedBehaviour
   \<and> run [New, CallTakeRef 1 (Ptr 0)] (init True)
     = Inr \<lparr>NDEBUG = True, objects = [0 \<mapsto> 1], handles = [1 \<mapsto> Ptr 0],
        total_reference_counted_objects = 1, destroy_calls = [], next_object = 1\<rparr>
   \<and> DropRef_with (Destroy_Node 2 Suc) 0
       \<lparr>NDEBUG = True, objects = [0 \<mapsto> 1], handles = [1 \<mapsto> Ptr 0],
        total_reference_counted_objects = 1, destroy_calls = [], next_object = 1\<rparr>
     = Inr \<lparr>NDEBUG = True, objects = Map.empty, handles = Map.empty,
        total_reference_counted_objects = 0, destroy_calls = [0], next_object = 1\<rparr>
   \<and> RCReference_move_assign_with (Destroy_Node 2 Suc) 1 1
       \<lparr>NDEBUG = True, objects = [0 \<mapsto> 1], handles = [1 \<mapsto> Ptr 0],
        total_reference_counted_objects = 1, destroy_calls = [], next_object = 1\<rparr>
     = Inl UndefinedBehaviour"
  by (simp add: init_def ReferenceCounted_ctor_def TakeRef_def RCReference_ctor_def
        RCReference_move_assign_with_def drop_if_set_with_def DropRef_with_def fetch_sub_def
        RCReference_dtor_with_def ReferenceCounted_dtor_def numeral_2_eq_2)

subsection \<open>Copying, releasing and adopting\<close>

text \<open>
  C5. \<^verbatim>\<open>CopyRef\<close> on an empty handle builds an empty handle and changes nothing
  else. On a handle that points to a live object \<open>a\<close> it is \<^verbatim>\<open>FormRef\<close> on that
  pointer: the new handle points to \<open>a\<close>, the count of \<open>a\<close> is incremented by one
  in 32-bit arithmetic (by one as a number unless it wraps to 0), and nothing else
  changes. The handle copied from keeps its pointer, the new handle being another
  object.
\<close>

theorem CopyRef_adds_one_unit:
  assumes "handles st this = Some p"
  shows "(p = nullptr \<longrightarrow>
            CopyRef ret this st = Inr (st\<lparr>handles := (handles st)(ret \<mapsto> nullptr)\<rparr>))
       \<and> (\<forall>a c. p = Ptr a \<and> objects st a = Some c \<longrightarrow>
            CopyRef ret this st = FormRef ret (Ptr a) st
          \<and> CopyRef ret this st =
              Inr (st\<lparr>handles := (handles st)(ret \<mapsto> Ptr a),
                      objects := (objects st)(a \<mapsto> c + 1)\<rparr>)
          \<and> (c + 1 \<noteq> 0 \<longrightarrow> unat (c + 1) = unat c + 1))
       \<and> (ret \<noteq> this \<longrightarrow> ((handles st)(ret \<mapsto> p)) this = Some p)"
  using assms
  by (auto simp: CopyRef_def FormRef_def RCReference_ctor_def get_def AddRef_def
        unat_plus_one_word32)

theorem CopyRef_adds_one_unit_witness:
  "CopyRef 1 0
     \<lparr>NDEBUG = False, objects = [0 \<mapsto> 1], handles = [0 \<mapsto> Ptr 0],
      total_reference_counted_objects = 1, destroy_calls = [], next_object = 1\<rparr>
   = Inr \<lparr>NDEBUG = False, objects = [0 \<mapsto> 2], handles = [0 \<mapsto> Ptr 0, 1 \<mapsto> Ptr 0],
      total_reference_counted_objects = 1, destroy_calls = [], next_object = 1\<rparr>
   \<and> CopyRef 1 0
     \<lparr>NDEBUG = False, objects = [0 \<mapsto> 1], handles = [0 \<mapsto> nullptr],
      total_reference_counted_objects = 1, destroy_calls = [], next_object = 1\<rparr>
   = Inr \<lparr>NDEBUG = False, objects = [0 \<mapsto> 1], handles = [0 \<mapsto> nullptr, 1 \<mapsto> nullptr],
      total_reference_counted_objects = 1, destroy_calls = [], next_object = 1\<rparr>"
  using CopyRef_adds_one_unit
    [of "\<lparr>NDEBUG = False, objects = [0 \<mapsto> 1], handles = [0 \<mapsto> Ptr 0],
      total_reference_counted_objects = 1, destroy_calls = [], next_object = 1\<rparr>" 0 "Ptr 0" 1]
    CopyRef_adds_one_unit
    [of "\<lparr>NDEBUG = False, objects = [0 \<mapsto> 1], handles = [0 \<mapsto> nullptr],
      total_reference_counted_objects = 1, destroy_calls = [], next_object = 1\<rparr>" 0 nullptr 1]
  by (simp add: CopyRef_def FormRef_def get_def RCReference_ctor_def AddRef_def)

text \<open>
  C6. \<^verbatim>\<open>release()\<close> returns the pointer of the handle and empties the handle.
  \<^verbatim>\<open>TakeRef\<close> on that pointer builds a handle for which \<^verbatim>\<open>get()\<close> returns the
  same pointer. After the two calls every count is what it was, and the state differs
  from the one before only in the two handles. If the new handle is built in the place
  of the old one, the state is exactly the one before.
\<close>

theorem release_TakeRef_roundtrip:
  assumes "handles st this = Some p"
  shows "release this st = Inr (p, st\<lparr>handles := (handles st)(this \<mapsto> nullptr)\<rparr>)
       \<and> TakeRef ret p (st\<lparr>handles := (handles st)(this \<mapsto> nullptr)\<rparr>) =
           st\<lparr>handles := (handles st)(this \<mapsto> nullptr, ret \<mapsto> p)\<rparr>
       \<and> get ret (TakeRef ret p (st\<lparr>handles := (handles st)(this \<mapsto> nullptr)\<rparr>)) =
           Inr (p, TakeRef ret p (st\<lparr>handles := (handles st)(this \<mapsto> nullptr)\<rparr>))
       \<and> objects (TakeRef ret p (st\<lparr>handles := (handles st)(this \<mapsto> nullptr)\<rparr>)) =
           objects st
       \<and> TakeRef this p (st\<lparr>handles := (handles st)(this \<mapsto> nullptr)\<rparr>) = st"
proof -
  have "(handles st)(this \<mapsto> p) = handles st"
    using assms by (simp add: fun_upd_idem)
  with assms show ?thesis
    by (simp add: release_def TakeRef_def RCReference_ctor_def get_def)
qed

theorem release_TakeRef_roundtrip_witness:
  "release 0
     \<lparr>NDEBUG = False, objects = [0 \<mapsto> 1], handles = [0 \<mapsto> Ptr 0],
      total_reference_counted_objects = 1, destroy_calls = [], next_object = 1\<rparr>
   = Inr (Ptr 0,
      \<lparr>NDEBUG = False, objects = [0 \<mapsto> 1], handles = [0 \<mapsto> nullptr],
       total_reference_counted_objects = 1, destroy_calls = [], next_object = 1\<rparr>)
   \<and> TakeRef 1 (Ptr 0)
      \<lparr>NDEBUG = False, objects = [0 \<mapsto> 1], handles = [0 \<mapsto> nullptr],
       total_reference_counted_objects = 1, destroy_calls = [], next_object = 1\<rparr>
   = \<lparr>NDEBUG = False, objects = [0 \<mapsto> 1], handles = [0 \<mapsto> nullptr, 1 \<mapsto> Ptr 0],
       total_reference_counted_objects = 1, destroy_calls = [], next_object = 1\<rparr>"
  using release_TakeRef_roundtrip
    [of "\<lparr>NDEBUG = False, objects = [0 \<mapsto> 1], handles = [0 \<mapsto> Ptr 0],
      total_reference_counted_objects = 1, destroy_calls = [], next_object = 1\<rparr>" 0 "Ptr 0" 1]
  by simp

subsection \<open>The global counter\<close>

text \<open>
  C7. In every state that a sequence of calls reaches from process start without a
  fault, the global counter is the number of live objects (as a 64-bit value, and as
  a number while there are fewer than \<open>2^64\<close> of them), and this is what
  \<^verbatim>\<open>GetNumReferenceCountedObjects\<close> returns. In such a state the constructor creates
  an object that was not live, gives it the count 1 and increments the counter by one,
  and a destructor that returns ends the life of a live object and decrements the
  counter by one.
\<close>

theorem live_object_counter:
  assumes "run cs (init nd) = Inr st"
  shows "total_reference_counted_objects st = of_nat (card (dom (objects st)))
       \<and> (card (dom (objects st)) < 2 ^ 64 \<longrightarrow>
            unat (fst (GetNumReferenceCountedObjects st)) = card (dom (objects st)))
       \<and> objects st (fst (ReferenceCounted_ctor st)) = None
       \<and> objects (snd (ReferenceCounted_ctor st)) (fst (ReferenceCounted_ctor st)) = Some 1
       \<and> total_reference_counted_objects (snd (ReferenceCounted_ctor st)) =
            total_reference_counted_objects st + 1
       \<and> (\<forall>a st'. ReferenceCounted_dtor a st = Inr st' \<longrightarrow>
            objects st a \<noteq> None \<and> objects st' a = None
          \<and> total_reference_counted_objects st' = total_reference_counted_objects st - 1)"
proof -
  have inv: "counter_inv st"
    using assms counter_inv_init by (rule counter_inv_run)
  then have sub: "dom (objects st) \<subseteq> {..<next_object st}"
    and tot: "total_reference_counted_objects st = of_nat (card (dom (objects st)))"
    by (simp_all add: counter_inv_def)
  have small: "unat (fst (GetNumReferenceCountedObjects st)) = card (dom (objects st))"
    if "card (dom (objects st)) < 2 ^ 64"
    using that tot by (simp add: GetNumReferenceCountedObjects_def unat_of_nat)
  have fresh: "objects st (next_object st) = None"
    using sub by (auto simp: domIff)
  have dtor: "objects st a \<noteq> None \<and> objects st' a = None
          \<and> total_reference_counted_objects st' = total_reference_counted_objects st - 1"
    if "ReferenceCounted_dtor a st = Inr st'" for a st'
    using that by (auto simp: ReferenceCounted_dtor_def split: option.splits if_splits)
  from tot small fresh dtor show ?thesis
    by (simp add: ReferenceCounted_ctor_def Let_def)
qed

text \<open>
  Two objects are created and the first is dropped: one object is live and the
  counter is 1. In this build the destructor of the second object returns, and the
  counter is 0.
\<close>

theorem live_object_counter_witness:
  "run [New, New, CallDropRef 0] (init True) =
     Inr \<lparr>NDEBUG = True, objects = [1 \<mapsto> 1], handles = Map.empty,
        total_reference_counted_objects = 1, destroy_calls = [0], next_object = 2\<rparr>
   \<and> GetNumReferenceCountedObjects
       \<lparr>NDEBUG = True, objects = [1 \<mapsto> 1], handles = Map.empty,
        total_reference_counted_objects = 1, destroy_calls = [0], next_object = 2\<rparr>
     = (of_nat (card (dom [1 \<mapsto> 1 :: 32 word])),
       \<lparr>NDEBUG = True, objects = [1 \<mapsto> 1], handles = Map.empty,
        total_reference_counted_objects = 1, destroy_calls = [0], next_object = 2\<rparr>)
   \<and> card (dom [1 \<mapsto> 1 :: 32 word]) < (2 :: nat) ^ 64
   \<and> ReferenceCounted_dtor 1
       \<lparr>NDEBUG = True, objects = [1 \<mapsto> 1], handles = Map.empty,
        total_reference_counted_objects = 1, destroy_calls = [0], next_object = 2\<rparr>
     = Inr \<lparr>NDEBUG = True, objects = Map.empty, handles = Map.empty,
        total_reference_counted_objects = 0, destroy_calls = [0], next_object = 2\<rparr>"
  using live_object_counter [of "[New, New, CallDropRef 0]" True
     "\<lparr>NDEBUG = True, objects = [1 \<mapsto> 1], handles = Map.empty,
        total_reference_counted_objects = 1, destroy_calls = [0], next_object = 2\<rparr>"]
  by (simp add: init_def ReferenceCounted_ctor_def DropRef_eq Destroy_def
        ReferenceCounted_dtor_def GetNumReferenceCountedObjects_def)

subsection \<open>Empty handles\<close>

text \<open>
  C8. \<^verbatim>\<open>TakeRef(nullptr)\<close> builds the handle that the default constructor builds
  and touches no count. On that handle \<^verbatim>\<open>operator bool\<close> is false, and the
  destructor, \<^verbatim>\<open>release()\<close> and \<^verbatim>\<open>reset(p)\<close> return normally and change nothing
  but the handle itself: no \<^verbatim>\<open>DropRef\<close> takes place.
\<close>

theorem TakeRef_null_is_empty:
  "TakeRef ret nullptr st = RCReference_ctor ret st
   \<and> objects (TakeRef ret nullptr st) = objects st
   \<and> destroy_calls (TakeRef ret nullptr st) = destroy_calls st
   \<and> operator_bool ret (TakeRef ret nullptr st) = Inr (False, TakeRef ret nullptr st)
   \<and> RCReference_dtor ret (TakeRef ret nullptr st) =
       Inr (st\<lparr>handles := (handles st)(ret := None)\<rparr>)
   \<and> release ret (TakeRef ret nullptr st) = Inr (nullptr, TakeRef ret nullptr st)
   \<and> reset ret p (TakeRef ret nullptr st) =
       Inr (st\<lparr>handles := (handles st)(ret \<mapsto> p)\<rparr>)"
  by (simp add: TakeRef_def RCReference_ctor_def operator_bool_def RCReference_dtor_eq
        release_def reset_eq drop_if_set_eq)

subsection \<open>Decrement of a count that is already zero\<close>

text \<open>
  C9. \<^verbatim>\<open>DropRef\<close> has no underflow check. On a live object it always returns
  normally. The destroy hook is entered exactly if the count before the decrement is 1.
  If that count is 0, the stored count wraps to \<open>2^32 - 1\<close>, nothing else changes, and
  the hook is not entered.
\<close>

theorem DropRef_wraps_at_zero:
  assumes "objects st a = Some c"
  shows "\<exists>st'. DropRef a st = Inr st'
           \<and> destroy_calls st' = (if c = 1 then destroy_calls st @ [a] else destroy_calls st)
           \<and> (c = 0 \<longrightarrow> st' = st\<lparr>objects := (objects st)(a \<mapsto> 0xFFFFFFFF)\<rparr>
                      \<and> (\<exists>c'. objects st' a = Some c' \<and> unat c' = 2 ^ 32 - 1))"
proof (cases "c = 1")
  case True
  with assms show ?thesis by (simp add: DropRef_live)
next
  case False
  with assms show ?thesis
    unfolding minus_one_word32 [symmetric]
    by (simp add: DropRef_live unat_minus_one_word32)
qed

theorem DropRef_wraps_at_zero_witness:
  "objects ((init False)\<lparr>objects := [0 \<mapsto> 0]\<rparr>) 0 = Some 0
   \<and> DropRef 0 ((init False)\<lparr>objects := [0 \<mapsto> 0]\<rparr>) =
       Inr ((init False)\<lparr>objects := [0 \<mapsto> 0xFFFFFFFF]\<rparr>)
   \<and> destroy_calls ((init False)\<lparr>objects := [0 \<mapsto> 0xFFFFFFFF]\<rparr>) = []"
  using DropRef_wraps_at_zero [of "(init False)\<lparr>objects := [0 \<mapsto> 0]\<rparr>" 0 0]
  by (auto simp: init_def)

subsection \<open>\<^verbatim>\<open>get()\<close>\<close>

text \<open>
  C10. On every live handle, empty or not, \<^verbatim>\<open>get()\<close> returns normally in both build
  configurations: the result is the pointer held, and the state is the one before the
  call. \<^verbatim>\<open>operator bool\<close> is true exactly if that pointer is not null. On an empty
  handle in a build without \<^verbatim>\<open>NDEBUG\<close>, \<^verbatim>\<open>operator*\<close> and \<^verbatim>\<open>operator->\<close>
  abort on their assertion instead.
\<close>

theorem get_total:
  assumes "handles st this = Some p"
  shows "get this st = Inr (p, st)
       \<and> operator_bool this st = Inr (p \<noteq> nullptr, st)
       \<and> (p = nullptr \<and> \<not> NDEBUG st \<longrightarrow>
            operator_star this st = Inl AssertionFailed
          \<and> operator_arrow this st = Inl AssertionFailed)"
  using assms by (simp add: get_def operator_bool_def operator_star_def operator_arrow_def)

theorem get_total_witness:
  "handles (RCReference_ctor 0 (init False)) 0 = Some nullptr
   \<and> get 0 (RCReference_ctor 0 (init False)) = Inr (nullptr, RCReference_ctor 0 (init False))
   \<and> operator_bool 0 (RCReference_ctor 0 (init False)) =
       Inr (False, RCReference_ctor 0 (init False))
   \<and> operator_star 0 (RCReference_ctor 0 (init False)) = Inl AssertionFailed"
  using get_total [of "RCReference_ctor 0 (init False)" 0 nullptr]
  by (simp add: RCReference_ctor_def init_def)

end
